theory Spec2Isabelle
  imports Main "HOL-Library.AList" "HOL-Library.Word"
begin

section \<open>Data model of the room hub (package api)\<close>

text \<open>
  A \<open>*websocket.Conn\<close> is a pointer, so a subscriber handle is modelled by its identity.
  A \<open>context.CancelFunc\<close> is modelled by the identity of the context it cancels: every
  subscription creates its own with \<open>context.WithCancel\<close>.
\<close>

type_synonym conn = nat
type_synonym CancelFunc = nat

text \<open>
  \<open>apiHandler.subscribers\<close> has type
  \<open>map[string]map[*websocket.Conn]context.CancelFunc\<close>. The outer map is only looked up
  and stored into, so it is a partial function. The inner map is ranged over by
  \<open>notifyClients\<close>, so it is an association list: the list order stands for the order in
  which \<open>range\<close> visits the entries, which Go leaves unspecified. Insertion is
  \<open>AList.update\<close>, \<open>delete\<close> is \<open>AList.delete\<close>. The fields \<open>q\<close>, \<open>r\<close>, \<open>upgrader\<close> are
  passed to the functions that use them; \<open>mu\<close> is held for the whole of every block
  that touches \<open>subscribers\<close>, so each such block is one atomic step of the model.
\<close>

record apiHandler =
  subscribers :: "string \<rightharpoonup> (conn \<times> CancelFunc) list"

text \<open>\<open>NewHandler\<close>: \<open>subscribers\<close> starts as an empty map.\<close>

definition NewHandler :: apiHandler where
  "NewHandler = \<lparr>subscribers = Map.empty\<rparr>"

subsection \<open>Events\<close>

type_synonym MessageKind = string

definition MessageCreated :: MessageKind where
  "MessageCreated = ''message_created''"




text \<open>
  \<open>Message.Value\<close> has type \<open>any\<close>; the program only ever stores one of the four payload
  structs in it. \<open>Count\<close> is an \<open>int64\<close>.
\<close>

datatype payload =
    MessagMessageCreated string string
  | MessageMessageReactionIncreased string "64 word"
  | MessageMessageReactionDecreased string "64 word"
  | MessageMessageAnswered string

record Message =
  Kind :: MessageKind
  Value :: payload
  RoomID :: string

text \<open>
  The JSON document that \<open>encoding/json\<close> builds from a value, as a tree. The struct tags
  of the source fix the member names and their order; a field tagged \<open>json:"-"\<close> is left
  out. The text rendering of the tree (escaping, digits) belongs to the library.
\<close>

datatype json =
    JNull
  | JString string
  | JNumber int
  | JArray "json list"
  | JObject "(string \<times> json) list"

fun payload_json :: "payload \<Rightarrow> json" where
  "payload_json (MessagMessageCreated ID msg) =
     JObject [(''id'', JString ID), (''message'', JString msg)]"
| "payload_json (MessageMessageReactionIncreased ID Count) =
     JObject [(''id'', JString ID), (''count'', JNumber (sint Count))]"
| "payload_json (MessageMessageReactionDecreased ID Count) =
     JObject [(''id'', JString ID), (''count'', JNumber (sint Count))]"
| "payload_json (MessageMessageAnswered ID) =
     JObject [(''id'', JString ID)]"

definition Message_json :: "Message \<Rightarrow> json" where
  "Message_json msg =
     JObject [(''kind'', JString (Kind msg)), (''value'', payload_json (Value msg))]"

subsection \<open>Effects\<close>

text \<open>
  What a handler does besides changing \<open>subscribers\<close> and the response writer, in program
  order. \<open>WriteJSON c j ok\<close> is one call \<open>c.WriteJSON(v)\<close> with \<open>j\<close> the document of \<open>v\<close>
  and \<open>ok\<close> telling whether it returned a nil error. \<open>Go msg\<close> is the statement
  \<open>go h.notifyClients(msg)\<close>.
\<close>

datatype level = Info | Warn | Error

datatype effect =
    WriteJSON conn json bool
  | Slog level string
  | Cancel CancelFunc
  | Upgrade
  | Close conn
  | Go Message

section \<open>Subscriber registry\<close>

text \<open>
  The first locked block of \<open>handleSubscribe\<close>: create the room's map if the room has no
  entry, log, then store \<open>cancel\<close> under \<open>c\<close>.
\<close>

definition register :: "string \<Rightarrow> conn \<Rightarrow> CancelFunc \<Rightarrow> apiHandler \<Rightarrow> apiHandler \<times> effect list" where
  "register rawRoomID c cancel h =
     (let subs = (case subscribers h rawRoomID of None \<Rightarrow> [] | Some m \<Rightarrow> m)
      in (h\<lparr>subscribers := (subscribers h)(rawRoomID \<mapsto> AList.update c cancel subs)\<rparr>,
          [Slog Info ''new client connected'']))"

text \<open>
  The second locked block of \<open>handleSubscribe\<close>: \<open>delete(h.subscribers[rawRoomID], c)\<close>.
  Reading a missing key yields a nil map and stores nothing; \<open>delete\<close> on a nil map
  and \<open>delete\<close> of a missing key are no-ops in Go.
\<close>

definition deregister :: "string \<Rightarrow> conn \<Rightarrow> apiHandler \<Rightarrow> apiHandler" where
  "deregister rawRoomID c h =
     (case subscribers h rawRoomID of
        None \<Rightarrow> h
      | Some m \<Rightarrow> h\<lparr>subscribers := (subscribers h)(rawRoomID \<mapsto> AList.delete c m)\<rparr>)"

section \<open>Broadcast dispatcher\<close>

text \<open>
  The loop of \<open>notifyClients\<close> over the room's map. \<open>fails c\<close> tells whether
  \<open>c.WriteJSON(msg)\<close> returns an error in this call.
\<close>

fun range_subscribers :: "(conn \<Rightarrow> bool) \<Rightarrow> Message \<Rightarrow> (conn \<times> CancelFunc) list \<Rightarrow> effect list" where
  "range_subscribers fails msg [] = []"
| "range_subscribers fails msg ((c, cancel) # rest) =
     (if fails c
      then [WriteJSON c (Message_json msg) False,
            Slog Error ''failed send message to clients'',
            Cancel cancel]
      else [WriteJSON c (Message_json msg) True])
     @ range_subscribers fails msg rest"

definition notifyClients :: "(conn \<Rightarrow> bool) \<Rightarrow> apiHandler \<Rightarrow> Message \<Rightarrow> apiHandler \<times> effect list" where
  "notifyClients fails h msg =
     (case subscribers h (RoomID msg) of
        None \<Rightarrow> (h, [])
      | Some subs \<Rightarrow>
          if length subs = 0 then (h, [])
          else (h, range_subscribers fails msg subs))"

text \<open>Reading the registry and a trace.\<close>

definition room_conns :: "apiHandler \<Rightarrow> string \<Rightarrow> conn list" where
  "room_conns h room = (case subscribers h room of None \<Rightarrow> [] | Some m \<Rightarrow> map fst m)"

fun written :: "effect list \<Rightarrow> conn list" where
  "written [] = []"
| "written (WriteJSON c j ok # es) = c # written es"
| "written (e # es) = written es"

section \<open>Sequences of registry operations\<close>

text \<open>
  The three operations on \<open>subscribers\<close>, each run under \<open>mu\<close>, and the registry after
  a sequence of them in any interleaving of the goroutines that run them.
\<close>

datatype op =
    Register string conn CancelFunc
  | Deregister string conn
  | Publish "conn \<Rightarrow> bool" Message

fun step :: "op \<Rightarrow> apiHandler \<Rightarrow> apiHandler" where
  "step (Register room c cancel) h = fst (register room c cancel h)"
| "step (Deregister room c) h = deregister room c h"
| "step (Publish fails msg) h = fst (notifyClients fails h msg)"

definition run :: "op list \<Rightarrow> apiHandler \<Rightarrow> apiHandler" where
  "run ops h = fold step ops h"

text \<open>
  The connections registered by a sequence. \<open>Upgrade\<close> returns a newly allocated
  connection on every call, so in a sequence that the program can run they are distinct.
\<close>

fun reg_conns :: "op list \<Rightarrow> conn list" where
  "reg_conns [] = []"
| "reg_conns (Register room c cancel # ops) = c # reg_conns ops"
| "reg_conns (a # ops) = reg_conns ops"

section \<open>HTTP side\<close>

text \<open>
  \<open>http.ResponseWriter\<close> as far as the handlers use it: the header map, the status
  line (\<open>None\<close> until it is written; a later \<open>WriteHeader\<close> is ignored) and the body.
  \<open>Write\<close> writes status 200 first when none was written.
\<close>

record ResponseWriter =
  header :: "string \<rightharpoonup> string"
  status :: "nat option"
  body :: string

definition Header_Set :: "string \<Rightarrow> string \<Rightarrow> ResponseWriter \<Rightarrow> ResponseWriter" where
  "Header_Set k v w = w\<lparr>header := (header w)(k \<mapsto> v)\<rparr>"

definition WriteHeader :: "nat \<Rightarrow> ResponseWriter \<Rightarrow> ResponseWriter" where
  "WriteHeader code w = (case status w of None \<Rightarrow> w\<lparr>status := Some code\<rparr> | Some _ \<Rightarrow> w)"

definition Write :: "string \<Rightarrow> ResponseWriter \<Rightarrow> ResponseWriter" where
  "Write data w = (let w' = WriteHeader 200 w in w'\<lparr>body := body w' @ data\<rparr>)"

definition http_Error :: "ResponseWriter \<Rightarrow> string \<Rightarrow> nat \<Rightarrow> ResponseWriter" where
  "http_Error w err code =
     Write (err @ [CHR 0x0A])
       (WriteHeader code
         (Header_Set ''X-Content-Type-Options'' ''nosniff''
           (Header_Set ''Content-Type'' ''text/plain; charset=utf-8''
             (w\<lparr>header := (header w)(''Content-Length'' := None)\<rparr>))))"

text \<open>
  \<open>sendJSON\<close> (utils.go). \<open>Marshal\<close> stands for \<open>json.Marshal\<close> at the type of
  \<open>rawData\<close>: \<open>Inl\<close> is a non-nil error, and the bytes are nil then. The error is
  dropped by the blank identifier.
\<close>

type_synonym err = string

definition sendJSON :: "('a \<Rightarrow> err + string) \<Rightarrow> ResponseWriter \<Rightarrow> 'a \<Rightarrow> ResponseWriter" where
  "sendJSON Marshal w rawData =
     (let data = (case Marshal rawData of Inl _ \<Rightarrow> [] | Inr bytes \<Rightarrow> bytes)
      in Write data (Header_Set ''Content-Type'' ''application/json'' w))"

subsection \<open>The collaborators\<close>

text \<open>
  A Go slice is nil or holds elements; \<open>Slice []\<close> is the non-nil empty slice
  \<open>[]T{}\<close>. \<open>pgstore.Room\<close> and \<open>pgstore.Message\<close> are type parameters. A query is
  called at most once per request, so \<open>pgstore.Queries\<close> is a record of result
  functions; \<open>ErrNoRows\<close> is the error for which \<open>errors.Is(err, pgx.ErrNoRows)\<close> holds.
  \<open>uuid.Parse\<close> and \<open>UUID.String\<close> come with the record \<open>uuid_pkg\<close>.
\<close>

datatype 'a slice = NilSlice | Slice "'a list"

type_synonym UUID = "128 word"

datatype store_error = ErrNoRows | OtherError err

record ('room, 'message) Queries =
  GetRoom :: "UUID \<Rightarrow> store_error + 'room"
  GetMessage :: "UUID \<Rightarrow> store_error + 'message"
  GetRooms :: "store_error + 'room slice"
  GetRoomMessages :: "UUID \<Rightarrow> store_error + 'message slice"
  InsertMessage :: "UUID \<Rightarrow> string \<Rightarrow> store_error + UUID"
  ReactToMessage :: "UUID \<Rightarrow> store_error + 64 word"
  RemoveReactionFromMessage :: "UUID \<Rightarrow> store_error + 64 word"
  MarkMessageAsAnswered :: "UUID \<Rightarrow> store_error option"

record uuid_pkg =
  Parse :: "string \<Rightarrow> err + UUID"
  String :: "UUID \<Rightarrow> string"

text \<open>
  The request: the two URL parameters read with \<open>chi.URLParam\<close> and the outcome of
  decoding the body into the handler's \<open>_body\<close> struct (its one string field).
\<close>

record Request =
  room_id :: string
  message_id :: string
  Decode_body :: "err + string"

subsection \<open>readRoom and readMessage (utils.go)\<close>

text \<open>
  The result \<open>ok = false\<close> is \<open>None\<close>; the callers read the other results only when
  \<open>ok\<close> holds.
\<close>

definition readRoom ::
  "uuid_pkg \<Rightarrow> ('room, 'message) Queries \<Rightarrow> ResponseWriter \<Rightarrow> Request
     \<Rightarrow> ResponseWriter \<times> effect list \<times> ('room \<times> string \<times> UUID) option" where
  "readRoom u q w r =
     (let rawRoomID = room_id r in
      case Parse u rawRoomID of
        Inl _ \<Rightarrow> (http_Error w ''invalid room id'' 400, [], None)
      | Inr roomID \<Rightarrow>
          (case GetRoom q roomID of
             Inl ErrNoRows \<Rightarrow> (http_Error w ''room not found'' 400, [], None)
           | Inl (OtherError _) \<Rightarrow>
               (http_Error w ''something went wrong'' 500,
                [Slog Error ''failed to get room''], None)
           | Inr room \<Rightarrow> (w, [], Some (room, rawRoomID, roomID))))"


subsection \<open>handleSubscribe\<close>

text \<open>
  \<open>handleSubscribe\<close> blocks on \<open><-ctx.Done()\<close>, so it is two functions: the part up
  to the wait, and \<open>handleSubscribe_done\<close>, the part that runs once the context is
  done (the second locked block, then the deferred \<open>c.Close()\<close>). \<open>up\<close> is what
  \<open>h.upgrader.Upgrade\<close> does if it is called: \<open>Inr c\<close> is the new connection,
  \<open>Inl (e, w')\<close> is the error \<open>e\<close> with \<open>w'\<close> the response writer as \<open>Upgrade\<close> left
  it (it answers a failed handshake itself before it returns), and the handler's
  \<open>http.Error\<close> then acts on \<open>w'\<close>. \<open>cancel\<close> is what \<open>context.WithCancel\<close> returns. The
  last result is \<open>Some (rawRoomID, c)\<close> when the handler is left waiting.
\<close>

definition handleSubscribe ::
  "uuid_pkg \<Rightarrow> ('room, 'message) Queries \<Rightarrow> (err \<times> ResponseWriter) + conn
     \<Rightarrow> CancelFunc \<Rightarrow> apiHandler
     \<Rightarrow> ResponseWriter \<Rightarrow> Request
     \<Rightarrow> apiHandler \<times> ResponseWriter \<times> effect list \<times> (string \<times> conn) option" where
  "handleSubscribe u q up cancel h w r =
     (case readRoom u q w r of
        (w1, e1, None) \<Rightarrow> (h, w1, e1, None)
      | (w1, e1, Some (_, rawRoomID, _)) \<Rightarrow>
          (case up of
             Inl (_, w2) \<Rightarrow>
               (h, http_Error w2 ''failed to upgrade to ws connection'' 400,
                e1 @ [Upgrade, Slog Warn ''failed to upgrade connection''], None)
           | Inr c \<Rightarrow>
               (case register rawRoomID c cancel h of
                  (h', e2) \<Rightarrow> (h', w1, e1 @ [Upgrade] @ e2, Some (rawRoomID, c)))))"

definition handleSubscribe_done :: "string \<Rightarrow> conn \<Rightarrow> apiHandler \<Rightarrow> apiHandler \<times> effect list" where
  "handleSubscribe_done rawRoomID c h = (deregister rawRoomID c h, [Close c])"

subsection \<open>The list handlers\<close>

definition handleGetRooms ::
  "('room, 'message) Queries \<Rightarrow> ('room slice \<Rightarrow> err + string) \<Rightarrow> ResponseWriter
     \<Rightarrow> ResponseWriter \<times> effect list" where
  "handleGetRooms q Marshal w =
     (case GetRooms q of
        Inl _ \<Rightarrow>
          (http_Error w ''something went wrong'' 500, [Slog Error ''failed to get rooms''])
      | Inr rooms \<Rightarrow>
          (sendJSON Marshal w (case rooms of NilSlice \<Rightarrow> Slice [] | Slice _ \<Rightarrow> rooms), []))"

definition handleGetRoomMessages ::
  "uuid_pkg \<Rightarrow> ('room, 'message) Queries \<Rightarrow> ('message slice \<Rightarrow> err + string)
     \<Rightarrow> ResponseWriter \<Rightarrow> Request \<Rightarrow> ResponseWriter \<times> effect list" where
  "handleGetRoomMessages u q Marshal w r =
     (case readRoom u q w r of
        (w1, e1, None) \<Rightarrow> (w1, e1)
      | (w1, e1, Some (_, _, roomID)) \<Rightarrow>
          (case GetRoomMessages q roomID of
             Inl _ \<Rightarrow>
               (http_Error w1 ''something went wrong'' 500,
                e1 @ [Slog Error ''failed to get room messages''])
           | Inr messages \<Rightarrow>
               (sendJSON Marshal w1
                  (case messages of NilSlice \<Rightarrow> Slice [] | Slice _ \<Rightarrow> messages), e1)))"

subsection \<open>The event producers\<close>





section \<open>A concrete hub\<close>

text \<open>
  Connections 1 and 2 subscribed to room \<open>r1\<close>, connection 3 to room \<open>r2\<close>, and a
  \<open>message_created\<close> event for \<open>r1\<close>. \<open>fails_on cs\<close> lets the writes to the connections
  in \<open>cs\<close> fail.
\<close>

definition scenario_ops :: "op list" where
  "scenario_ops = [Register ''r1'' 1 10, Register ''r1'' 2 20, Register ''r2'' 3 30]"

definition scenario_hub :: apiHandler where
  "scenario_hub = run scenario_ops NewHandler"

definition scenario_msg :: Message where
  "scenario_msg =
     \<lparr>Kind = MessageCreated, Value = MessagMessageCreated ''m1'' ''hi'', RoomID = ''r1''\<rparr>"

definition fails_on :: "conn list \<Rightarrow> conn \<Rightarrow> bool" where
  "fails_on cs c = (c \<in> set cs)"

text \<open>
  A response writer nothing was written to, a \<open>uuid\<close> package and a store that know
  room \<open>r1\<close> (id 1) and message \<open>m1\<close> (id 2), a request for them, a request with a
  malformed room id, a \<open>json.Marshal\<close> for slices of strings that renders the nil
  slice as \<open>null\<close>, and one for documents whose text does not matter.
\<close>

definition fresh_writer :: ResponseWriter where
  "fresh_writer = \<lparr>header = Map.empty, status = None, body = []\<rparr>"

definition scenario_uuid :: uuid_pkg where
  "scenario_uuid =
     \<lparr>Parse = (\<lambda>s. if s = ''r1'' then Inr 1 else if s = ''m1'' then Inr 2
                    else Inl ''invalid UUID length''),
      String = (\<lambda>i. if i = 1 then ''r1'' else ''m1'')\<rparr>"

definition scenario_store :: "(string, string) Queries" where
  "scenario_store =
     \<lparr>GetRoom = (\<lambda>i. if i = 1 then Inr ''a room'' else Inl ErrNoRows),
      GetMessage = (\<lambda>i. if i = 2 then Inr ''hi'' else Inl ErrNoRows),
      GetRooms = Inr NilSlice,
      GetRoomMessages = (\<lambda>i. Inr NilSlice),
      InsertMessage = (\<lambda>i m. Inr 2),
      ReactToMessage = (\<lambda>i. Inr 5),
      RemoveReactionFromMessage = (\<lambda>i. Inr 4),
      MarkMessageAsAnswered = (\<lambda>i. None)\<rparr>"

definition scenario_request :: Request where
  "scenario_request = \<lparr>room_id = ''r1'', message_id = ''m1'', Decode_body = Inr ''hi''\<rparr>"

definition scenario_Marshal :: "string slice \<Rightarrow> err + string" where
  "scenario_Marshal s =
     (case s of NilSlice \<Rightarrow> Inr ''null'' | Slice xs \<Rightarrow> Inr (''['' @ concat xs @ '']''))"


definition bad_request :: Request where
  "bad_request = \<lparr>room_id = ''not-a-uuid'', message_id = ''m1'', Decode_body = Inr ''hi''\<rparr>"

section \<open>Facts about the dispatcher loop\<close>

lemma range_subscribers_append:
  "range_subscribers fails msg (xs @ ys) =
     range_subscribers fails msg xs @ range_subscribers fails msg ys"
  by (induction xs) auto

lemma written_append: "written (xs @ ys) = written xs @ written ys"
  by (induction xs rule: written.induct) auto

lemma written_range_subscribers: "written (range_subscribers fails msg subs) = map fst subs"
  by (induction subs) auto

lemma WriteJSON_range_subscribers:
  "WriteJSON c j ok \<in> set (range_subscribers fails msg subs) \<longleftrightarrow>
     c \<in> fst ` set subs \<and> j = Message_json msg \<and> ok = (\<not> fails c)"
  by (induction subs) (auto split: if_splits)

lemma Cancel_range_subscribers:
  "Cancel k \<in> set (range_subscribers fails msg subs) \<longleftrightarrow>
     (\<exists>c. (c, k) \<in> set subs \<and> fails c)"
  by (induction subs) (auto split: if_splits)

lemma snd_notifyClients:
  "snd (notifyClients fails h msg) =
     range_subscribers fails msg (case subscribers h (RoomID msg) of None \<Rightarrow> [] | Some m \<Rightarrow> m)"
  by (cases "subscribers h (RoomID msg)") (auto simp: notifyClients_def)

lemma fst_notifyClients: "fst (notifyClients fails h msg) = h"
  by (cases "subscribers h (RoomID msg)") (auto simp: notifyClients_def)

lemma written_notifyClients:
  "written (snd (notifyClients fails h msg)) = room_conns h (RoomID msg)"
  by (cases "subscribers h (RoomID msg)")
     (auto simp: snd_notifyClients room_conns_def written_range_subscribers)

lemma WriteJSON_notifyClients:
  "WriteJSON c j ok \<in> set (snd (notifyClients fails h msg)) \<longleftrightarrow>
     c \<in> set (room_conns h (RoomID msg)) \<and> j = Message_json msg \<and> ok = (\<not> fails c)"
  by (cases "subscribers h (RoomID msg)")
     (auto simp: snd_notifyClients room_conns_def WriteJSON_range_subscribers)

lemma scenario_hub_subscribers:
  "subscribers scenario_hub = [''r1'' \<mapsto> [(1, 10), (2, 20)], ''r2'' \<mapsto> [(3, 30)]]"
  by (simp add: scenario_hub_def scenario_ops_def run_def register_def NewHandler_def)

lemma scenario_hub_conns:
  "room_conns scenario_hub ''r1'' = [1, 2]" "room_conns scenario_hub ''r2'' = [3]"
  by (simp_all add: room_conns_def scenario_hub_subscribers)

section \<open>Facts about the registry operations\<close>

lemma Cancel_notifyClients:
  "Cancel k \<in> set (snd (notifyClients fails h msg)) \<longleftrightarrow>
     (\<exists>subs c. subscribers h (RoomID msg) = Some subs \<and> (c, k) \<in> set subs \<and> fails c)"
  by (cases "subscribers h (RoomID msg)") (auto simp: snd_notifyClients Cancel_range_subscribers)

lemma room_conns_deregister:
  "room_conns (deregister r c h) r' = (if r' = r then removeAll c (room_conns h r) else room_conns h r')"
  by (cases "subscribers h r") (auto simp: deregister_def room_conns_def AList.delete_keys)

lemma deregister_absent: "c \<notin> set (room_conns h r) \<Longrightarrow> deregister r c h = h"
  by (cases "subscribers h r") (auto simp: deregister_def room_conns_def map_upd_triv)

lemma subscribers_register:
  "subscribers (fst (register r c k h)) r' =
     (if r' = r then Some (AList.update c k (case subscribers h r of None \<Rightarrow> [] | Some m \<Rightarrow> m))
      else subscribers h r')"
  by (simp add: register_def Let_def)

lemma subscribers_deregister:
  "subscribers (deregister r c h) r' =
     (if r' = r then map_option (AList.delete c) (subscribers h r) else subscribers h r')"
  by (cases "subscribers h r") (auto simp: deregister_def)

lemma step_keeps_entry: "subscribers h r \<noteq> None \<Longrightarrow> subscribers (step a h) r \<noteq> None"
  by (cases a) (auto simp: subscribers_register subscribers_deregister fst_notifyClients)

lemma run_keeps_entry: "subscribers h r \<noteq> None \<Longrightarrow> subscribers (run ops h) r \<noteq> None"
  unfolding run_def
proof (induction ops arbitrary: h)
  case Nil
  then show ?case by simp
next
  case (Cons a ops)
  have "subscribers (step a h) r \<noteq> None"
    using Cons.prems by (rule step_keeps_entry)
  then show ?case
    using Cons.IH by simp
qed

lemma step_no_entry:
  "\<forall>c k. a \<noteq> Register r c k \<Longrightarrow> subscribers h r = None \<Longrightarrow> subscribers (step a h) r = None"
  by (cases a) (auto simp: subscribers_register subscribers_deregister fst_notifyClients)

lemma run_no_entry:
  "\<forall>c k. Register r c k \<notin> set ops \<Longrightarrow> subscribers h r = None \<Longrightarrow> subscribers (run ops h) r = None"
  unfolding run_def
proof (induction ops arbitrary: h)
  case Nil
  then show ?case by simp
next
  case (Cons a ops)
  have "subscribers (step a h) r = None"
    using Cons.prems by (intro step_no_entry) auto
  moreover have "\<forall>c k. Register r c k \<notin> set ops"
    using Cons.prems by auto
  ultimately show ?case
    using Cons.IH by simp
qed

lemma room_conns_register:
  "set (room_conns (fst (register r c k h)) r') =
     (if r' = r then insert c (set (room_conns h r)) else set (room_conns h r'))"
  by (cases "subscribers h r") (auto simp: room_conns_def subscribers_register AList.dom_update)

lemma step_keeps_absent:
  "\<forall>k. a \<noteq> Register r c k \<Longrightarrow> c \<notin> set (room_conns h r) \<Longrightarrow> c \<notin> set (room_conns (step a h) r)"
  by (cases a) (auto simp: room_conns_register room_conns_deregister fst_notifyClients)

lemma run_keeps_absent:
  "\<forall>k. Register r c k \<notin> set ops \<Longrightarrow> c \<notin> set (room_conns h r) \<Longrightarrow> c \<notin> set (room_conns (run ops h) r)"
  unfolding run_def
proof (induction ops arbitrary: h)
  case Nil
  then show ?case by simp
next
  case (Cons a ops)
  have "c \<notin> set (room_conns (step a h) r)"
    using Cons.prems by (intro step_keeps_absent) auto
  moreover have "\<forall>k. Register r c k \<notin> set ops"
    using Cons.prems by auto
  ultimately show ?case
    using Cons.IH by simp
qed

lemma Register_reg_conns: "Register r c k \<in> set ops \<Longrightarrow> c \<in> set (reg_conns ops)"
  by (induction ops rule: reg_conns.induct) auto

lemma reg_conns_room_unique:
  "distinct (reg_conns ops) \<Longrightarrow> Register r c k \<in> set ops \<Longrightarrow> Register r' c k' \<in> set ops \<Longrightarrow> r' = r"
  by (induction ops rule: reg_conns.induct) (auto dest: Register_reg_conns)

lemma step_room_conns_origin:
  "c \<in> set (room_conns (step a h) r) \<Longrightarrow> c \<in> set (room_conns h r) \<or> (\<exists>k. a = Register r c k)"
  by (cases a) (auto simp: room_conns_register room_conns_deregister fst_notifyClients split: if_splits)

lemma run_room_conns_origin:
  "c \<in> set (room_conns (run ops h) r) \<Longrightarrow>
     c \<in> set (room_conns h r) \<or> (\<exists>k. Register r c k \<in> set ops)"
  unfolding run_def
proof (induction ops arbitrary: h)
  case Nil
  then show ?case by simp
next
  case (Cons a ops)
  then have "c \<in> set (room_conns (step a h) r) \<or> (\<exists>k. Register r c k \<in> set ops)"
    by simp
  then show ?case
    using step_room_conns_origin [of c a h r] by auto
qed

lemma room_conns_NewHandler: "room_conns NewHandler r = []"
  by (simp add: room_conns_def NewHandler_def)

lemma reachable_rooms_disjoint:
  assumes "distinct (reg_conns ops)" "c \<in> set (room_conns (run ops NewHandler) r)"
    "c \<in> set (room_conns (run ops NewHandler) r')"
  shows "r' = r"
proof -
  obtain k where "Register r c k \<in> set ops"
    using run_room_conns_origin [OF assms(2)] by (auto simp: room_conns_NewHandler)
  moreover obtain k' where "Register r' c k' \<in> set ops"
    using run_room_conns_origin [OF assms(3)] by (auto simp: room_conns_NewHandler)
  ultimately show ?thesis
    using assms(1) by (blast dest: reg_conns_room_unique)
qed

lemma distinct_room_conns_register:
  "distinct (room_conns h r') \<Longrightarrow> distinct (room_conns (fst (register r c k h)) r')"
  by (cases "subscribers h r") (auto simp: room_conns_def subscribers_register AList.distinct_update)

lemma step_distinct_room_conns:
  "distinct (room_conns h r) \<Longrightarrow> distinct (room_conns (step a h) r)"
  by (cases a)
     (auto simp: distinct_room_conns_register room_conns_deregister distinct_removeAll fst_notifyClients)

lemma run_distinct_room_conns:
  "distinct (room_conns h r) \<Longrightarrow> distinct (room_conns (run ops h) r)"
  unfolding run_def
proof (induction ops arbitrary: h)
  case Nil
  then show ?case by simp
next
  case (Cons a ops)
  have "distinct (room_conns (step a h) r)"
    using Cons.prems by (rule step_distinct_room_conns)
  then show ?case
    using Cons.IH by simp
qed

lemma step_keeps_present:
  "a \<noteq> Deregister r c \<Longrightarrow> c \<in> set (room_conns h r) \<Longrightarrow> c \<in> set (room_conns (step a h) r)"
  by (cases a) (auto simp: room_conns_register room_conns_deregister fst_notifyClients)

lemma run_keeps_present:
  "Deregister r c \<notin> set ops \<Longrightarrow> c \<in> set (room_conns h r) \<Longrightarrow> c \<in> set (room_conns (run ops h) r)"
  unfolding run_def
proof (induction ops arbitrary: h)
  case Nil
  then show ?case by simp
next
  case (Cons a ops)
  have "c \<in> set (room_conns (step a h) r)"
    using Cons.prems by (intro step_keeps_present) auto
  moreover have "Deregister r c \<notin> set ops"
    using Cons.prems by auto
  ultimately show ?case
    using Cons.IH by simp
qed

section \<open>Facts about the handlers\<close>

lemma status_Write: "status (Write data w) = Some (case status w of None \<Rightarrow> 200 | Some s \<Rightarrow> s)"
  by (cases "status w") (auto simp: Write_def WriteHeader_def Let_def)

lemma body_Write: "body (Write data w) = body w @ data"
  by (cases "status w") (auto simp: Write_def WriteHeader_def Let_def)

lemma header_Write: "header (Write data w) = header w"
  by (cases "status w") (auto simp: Write_def WriteHeader_def Let_def)

lemma readRoom_None_iff:
  "snd (snd (readRoom u q w r)) = None \<longleftrightarrow>
     (case Parse u (room_id r) of Inl _ \<Rightarrow> True
      | Inr roomID \<Rightarrow> (case GetRoom q roomID of Inl _ \<Rightarrow> True | Inr _ \<Rightarrow> False))"
  by (auto simp: readRoom_def Let_def split: sum.splits store_error.splits)

lemma readRoom_effects:
  "Upgrade \<notin> set (fst (snd (readRoom u q w r)))" "written (fst (snd (readRoom u q w r))) = []"
  by (auto simp: readRoom_def Let_def split: sum.splits store_error.splits)










section \<open>Claims\<close>

text \<open>
  C1. A publish attempts delivery to exactly the subscribers registered under the event's
  room. The connections written to by \<open>notifyClients\<close>, in the order of the writes, are
  the keys of the room's map. Every subscriber of the room gets one \<open>WriteJSON\<close> of the
  event, which succeeds unless its transport fails; every write goes to a key of the
  event's room and carries the event. In a hub built from \<open>NewHandler\<close> by operations
  that register distinct connections, no connection is written to twice and a
  subscriber registered under another room is never written to. When the room has no
  entry or an empty map the call returns at once: no effect, registry as it was.
\<close>

theorem notifyClients_room_exact:
  "written (snd (notifyClients fails h msg)) = room_conns h (RoomID msg)
   \<and> (\<forall>c. c \<in> set (room_conns h (RoomID msg)) \<longrightarrow>
          WriteJSON c (Message_json msg) (\<not> fails c) \<in> set (snd (notifyClients fails h msg)))
   \<and> (\<forall>c j ok. WriteJSON c j ok \<in> set (snd (notifyClients fails h msg)) \<longrightarrow>
          c \<in> set (room_conns h (RoomID msg)) \<and> j = Message_json msg)
   \<and> (distinct (reg_conns ops) \<longrightarrow>
        distinct (written (snd (notifyClients fails (run ops NewHandler) msg)))
        \<and> (\<forall>R' c j ok. R' \<noteq> RoomID msg \<and> c \<in> set (room_conns (run ops NewHandler) R') \<longrightarrow>
              WriteJSON c j ok \<notin> set (snd (notifyClients fails (run ops NewHandler) msg))))
   \<and> (subscribers h (RoomID msg) = None \<or> subscribers h (RoomID msg) = Some [] \<longrightarrow>
          notifyClients fails h msg = (h, []))"
proof -
  have empty: "subscribers h (RoomID msg) = None \<or> subscribers h (RoomID msg) = Some [] \<longrightarrow>
          notifyClients fails h msg = (h, [])"
    by (auto simp: notifyClients_def)
  have once: "distinct (written (snd (notifyClients fails (run ops NewHandler) msg)))"
    by (simp add: written_notifyClients run_distinct_room_conns room_conns_NewHandler)
  have others: "distinct (reg_conns ops) \<longrightarrow>
      (\<forall>R' c j ok. R' \<noteq> RoomID msg \<and> c \<in> set (room_conns (run ops NewHandler) R') \<longrightarrow>
         WriteJSON c j ok \<notin> set (snd (notifyClients fails (run ops NewHandler) msg)))"
    using reachable_rooms_disjoint [of ops] by (auto simp: WriteJSON_notifyClients)
  show ?thesis
    using empty once others by (simp add: written_notifyClients WriteJSON_notifyClients)
qed

theorem notifyClients_room_exact_witness:
  "written (snd (notifyClients (fails_on []) scenario_hub scenario_msg)) = [1, 2]
   \<and> WriteJSON 1 (Message_json scenario_msg) True
        \<in> set (snd (notifyClients (fails_on []) scenario_hub scenario_msg))
   \<and> WriteJSON 2 (Message_json scenario_msg) True
        \<in> set (snd (notifyClients (fails_on []) scenario_hub scenario_msg))
   \<and> distinct (reg_conns scenario_ops)
   \<and> 3 \<in> set (room_conns (run scenario_ops NewHandler) ''r2'')
   \<and> WriteJSON 3 (Message_json scenario_msg) True
        \<notin> set (snd (notifyClients (fails_on []) (run scenario_ops NewHandler) scenario_msg))
   \<and> subscribers NewHandler (RoomID scenario_msg) = None
   \<and> notifyClients (fails_on []) NewHandler scenario_msg = (NewHandler, [])"
proof -
  note hub = notifyClients_room_exact [of "fails_on []" scenario_hub scenario_msg scenario_ops]
  note fresh = notifyClients_room_exact [of "fails_on []" NewHandler scenario_msg scenario_ops]
  have room: "RoomID scenario_msg = ''r1''"
    by (simp add: scenario_msg_def)
  have ok: "\<not> fails_on [] c" for c
    by (simp add: fails_on_def)
  have order: "written (snd (notifyClients (fails_on []) scenario_hub scenario_msg)) = [1, 2]"
    using hub by (simp add: room scenario_hub_conns)
  have each: "c \<in> set (room_conns scenario_hub (RoomID scenario_msg)) \<Longrightarrow>
      WriteJSON c (Message_json scenario_msg) True
        \<in> set (snd (notifyClients (fails_on []) scenario_hub scenario_msg))" for c
    using hub ok by (metis (full_types))
  have w1: "WriteJSON 1 (Message_json scenario_msg) True
      \<in> set (snd (notifyClients (fails_on []) scenario_hub scenario_msg))"
    using each [of 1] by (simp add: room scenario_hub_conns)
  have w2: "WriteJSON 2 (Message_json scenario_msg) True
      \<in> set (snd (notifyClients (fails_on []) scenario_hub scenario_msg))"
    using each [of 2] by (simp add: room scenario_hub_conns)
  have regs: "distinct (reg_conns scenario_ops)"
    by (simp add: scenario_ops_def)
  have r2: "3 \<in> set (room_conns (run scenario_ops NewHandler) ''r2'')"
    using scenario_hub_conns(2) by (simp add: scenario_hub_def)
  have other: "''r2'' \<noteq> RoomID scenario_msg
      \<and> 3 \<in> set (room_conns (run scenario_ops NewHandler) ''r2'') \<longrightarrow>
      WriteJSON 3 (Message_json scenario_msg) True
        \<notin> set (snd (notifyClients (fails_on []) (run scenario_ops NewHandler) scenario_msg))"
    using hub regs by blast
  have w3: "WriteJSON 3 (Message_json scenario_msg) True
      \<notin> set (snd (notifyClients (fails_on []) (run scenario_ops NewHandler) scenario_msg))"
    using other r2 by (simp add: room)
  have none: "subscribers NewHandler (RoomID scenario_msg) = None"
    by (simp add: NewHandler_def)
  have noop: "notifyClients (fails_on []) NewHandler scenario_msg = (NewHandler, [])"
    using fresh none by blast
  show ?thesis
    by (intro conjI order w1 w2 regs r2 w3 none noop)
qed

text \<open>
  C2. A failed write cancels that subscriber and nothing more. If the room's map holds
  \<open>(c, cancel)\<close> between the entries \<open>before\<close> and \<open>after\<close> and the write to \<open>c\<close>
  fails, the call writes to \<open>before\<close>, then does the failed write, logs it at level
  Error and calls \<open>cancel\<close>, then goes on with \<open>after\<close>, whose connections are all
  written to. Every connection of the room is written to, only subscribers whose write
  failed are cancelled, and the registry is as before: \<open>c\<close> is not removed. The result
  carries no error: it is the registry and the effects.
\<close>

theorem notifyClients_write_failure:
  "subscribers h (RoomID msg) = Some (before @ (c, cancel) # after) \<and> fails c \<longrightarrow>
     notifyClients fails h msg =
       (h, range_subscribers fails msg before
           @ [WriteJSON c (Message_json msg) False,
              Slog Error ''failed send message to clients'',
              Cancel cancel]
           @ range_subscribers fails msg after)
     \<and> written (range_subscribers fails msg after) = map fst after
     \<and> written (snd (notifyClients fails h msg)) = map fst before @ c # map fst after
     \<and> (\<forall>k. Cancel k \<in> set (snd (notifyClients fails h msg)) \<longrightarrow>
            (\<exists>c'. (c', k) \<in> set (before @ (c, cancel) # after) \<and> fails c'))
     \<and> subscribers (fst (notifyClients fails h msg)) = subscribers h"
proof (intro impI, elim conjE)
  assume subs: "subscribers h (RoomID msg) = Some (before @ (c, cancel) # after)"
    and bad: "fails c"
  have run: "notifyClients fails h msg =
       (h, range_subscribers fails msg before
           @ [WriteJSON c (Message_json msg) False,
              Slog Error ''failed send message to clients'',
              Cancel cancel]
           @ range_subscribers fails msg after)"
    using subs bad by (simp add: notifyClients_def range_subscribers_append)
  have all: "written (snd (notifyClients fails h msg)) = map fst before @ c # map fst after"
    using subs by (simp add: written_notifyClients room_conns_def)
  have only: "\<forall>k. Cancel k \<in> set (snd (notifyClients fails h msg)) \<longrightarrow>
            (\<exists>c'. (c', k) \<in> set (before @ (c, cancel) # after) \<and> fails c')"
    using subs by (simp add: Cancel_notifyClients)
  show "notifyClients fails h msg =
       (h, range_subscribers fails msg before
           @ [WriteJSON c (Message_json msg) False,
              Slog Error ''failed send message to clients'',
              Cancel cancel]
           @ range_subscribers fails msg after)
     \<and> written (range_subscribers fails msg after) = map fst after
     \<and> written (snd (notifyClients fails h msg)) = map fst before @ c # map fst after
     \<and> (\<forall>k. Cancel k \<in> set (snd (notifyClients fails h msg)) \<longrightarrow>
            (\<exists>c'. (c', k) \<in> set (before @ (c, cancel) # after) \<and> fails c'))
     \<and> subscribers (fst (notifyClients fails h msg)) = subscribers h"
    by (intro conjI run written_range_subscribers all only) (simp add: fst_notifyClients)
qed

theorem notifyClients_write_failure_witness:
  "subscribers scenario_hub (RoomID scenario_msg) = Some ([] @ (1, 10) # [(2, 20)])
   \<and> fails_on [1] 1
   \<and> notifyClients (fails_on [1]) scenario_hub scenario_msg =
       (scenario_hub,
        [WriteJSON 1 (Message_json scenario_msg) False,
         Slog Error ''failed send message to clients'',
         Cancel 10,
         WriteJSON 2 (Message_json scenario_msg) True])
   \<and> subscribers (fst (notifyClients (fails_on [1]) scenario_hub scenario_msg))
       = subscribers scenario_hub"
proof -
  have subs: "subscribers scenario_hub (RoomID scenario_msg) = Some ([] @ (1, 10) # [(2, 20)])"
    by (simp add: scenario_hub_subscribers scenario_msg_def)
  have bad: "fails_on [1] 1"
    by (simp add: fails_on_def)
  note T = notifyClients_write_failure [of scenario_hub scenario_msg "[]" 1 10 "[(2, 20)]" "fails_on [1]"]
  have expanded: "notifyClients (fails_on [1]) scenario_hub scenario_msg =
       (scenario_hub, range_subscribers (fails_on [1]) scenario_msg []
           @ [WriteJSON 1 (Message_json scenario_msg) False,
              Slog Error ''failed send message to clients'',
              Cancel 10]
           @ range_subscribers (fails_on [1]) scenario_msg [(2, 20)])"
    using T subs bad by blast
  have run: "notifyClients (fails_on [1]) scenario_hub scenario_msg =
       (scenario_hub,
        [WriteJSON 1 (Message_json scenario_msg) False,
         Slog Error ''failed send message to clients'',
         Cancel 10,
         WriteJSON 2 (Message_json scenario_msg) True])"
    unfolding expanded by (simp add: fails_on_def)
  have same: "subscribers (fst (notifyClients (fails_on [1]) scenario_hub scenario_msg))
       = subscribers scenario_hub"
    using T subs bad by blast
  show ?thesis
    by (intro conjI subs bad run same)
qed

text \<open>
  C5. Deregistration is idempotent. Doing it twice is doing it once; it changes nothing
  when the handle is not in the room's map or the room has no entry; afterwards the
  handle is gone from the room's map and the other handles and rooms are as before; two
  removals from one room give the same registry in either order.
\<close>

theorem deregister_idempotent:
  "deregister r c (deregister r c h) = deregister r c h
   \<and> (c \<notin> set (room_conns h r) \<longrightarrow> deregister r c h = h)
   \<and> (subscribers h r = None \<longrightarrow> deregister r c h = h)
   \<and> room_conns (deregister r c h) r = removeAll c (room_conns h r)
   \<and> c \<notin> set (room_conns (deregister r c h) r)
   \<and> (\<forall>r'. r' \<noteq> r \<longrightarrow> subscribers (deregister r c h) r' = subscribers h r')
   \<and> deregister r c (deregister r c' h) = deregister r c' (deregister r c h)"
proof -
  have gone: "c \<notin> set (room_conns (deregister r c h) r)"
    by (simp add: room_conns_deregister)
  have twice: "deregister r c (deregister r c h) = deregister r c h"
    using gone by (rule deregister_absent)
  have none: "subscribers h r = None \<longrightarrow> deregister r c h = h"
    by (simp add: deregister_def)
  have others: "\<forall>r'. r' \<noteq> r \<longrightarrow> subscribers (deregister r c h) r' = subscribers h r'"
    by (cases "subscribers h r") (auto simp: deregister_def)
  have swap: "deregister r c (deregister r c' h) = deregister r c' (deregister r c h)"
    by (cases "subscribers h r") (auto simp: deregister_def AList.delete_twist)
  show ?thesis
    using gone twice none others swap
    by (simp add: room_conns_deregister deregister_absent)
qed

theorem deregister_idempotent_witness:
  "deregister ''r1'' 1 (deregister ''r1'' 1 scenario_hub) = deregister ''r1'' 1 scenario_hub
   \<and> 7 \<notin> set (room_conns scenario_hub ''r1'')
   \<and> deregister ''r1'' 7 scenario_hub = scenario_hub
   \<and> subscribers scenario_hub ''r9'' = None
   \<and> deregister ''r9'' 1 scenario_hub = scenario_hub
   \<and> room_conns (deregister ''r1'' 1 scenario_hub) ''r1'' = [2]"
proof -
  note present = deregister_idempotent [where r = "''r1''" and c = 1 and h = scenario_hub]
  note absent = deregister_idempotent [where r = "''r1''" and c = 7 and h = scenario_hub]
  note noroom = deregister_idempotent [where r = "''r9''" and c = 1 and h = scenario_hub]
  have twice: "deregister ''r1'' 1 (deregister ''r1'' 1 scenario_hub) = deregister ''r1'' 1 scenario_hub"
    using present by blast
  have seven: "7 \<notin> set (room_conns scenario_hub ''r1'')"
    by (simp add: scenario_hub_conns)
  have same: "deregister ''r1'' 7 scenario_hub = scenario_hub"
    using absent seven by blast
  have nine: "subscribers scenario_hub ''r9'' = None"
    by (simp add: scenario_hub_subscribers)
  have same9: "deregister ''r9'' 1 scenario_hub = scenario_hub"
    using noroom nine by blast
  have "room_conns (deregister ''r1'' 1 scenario_hub) ''r1'' = removeAll 1 (room_conns scenario_hub ''r1'')"
    using present by blast
  then have left: "room_conns (deregister ''r1'' 1 scenario_hub) ''r1'' = [2]"
    by (simp add: scenario_hub_conns)
  show ?thesis
    by (intro conjI twice seven same nine same9 left)
qed

text \<open>
  C6. Room entries are created lazily and never deleted. A new handler has no entry; as
  long as no subscriber registers for room \<open>r\<close>, no sequence of operations creates its
  entry; registering creates it; once a room has an entry, it has one after any sequence
  of register, deregister and publish; and when the only subscriber deregisters, the
  entry stays, holding the empty map.
\<close>

theorem room_entry_lifecycle:
  "subscribers NewHandler r = None
   \<and> ((\<forall>c k. Register r c k \<notin> set ops) \<longrightarrow> subscribers (run ops NewHandler) r = None)
   \<and> subscribers (fst (register r c k h)) r =
       Some (AList.update c k (case subscribers h r of None \<Rightarrow> [] | Some m \<Rightarrow> m))
   \<and> (subscribers h r \<noteq> None \<longrightarrow> subscribers (run ops h) r \<noteq> None)
   \<and> (subscribers h r = Some [(c, k)] \<longrightarrow> subscribers (deregister r c h) r = Some [])
   \<and> subscribers (deregister r c (fst (register r c k NewHandler))) r = Some []"
proof -
  have start: "subscribers NewHandler r = None"
    by (simp add: NewHandler_def)
  have lazy: "(\<forall>c k. Register r c k \<notin> set ops) \<longrightarrow> subscribers (run ops NewHandler) r = None"
    using start by (simp add: run_no_entry)
  have kept: "subscribers h r \<noteq> None \<longrightarrow> subscribers (run ops h) r \<noteq> None"
    using run_keeps_entry by blast
  have last: "subscribers h r = Some [(c, k)] \<longrightarrow> subscribers (deregister r c h) r = Some []"
    by (simp add: subscribers_deregister)
  have cycle: "subscribers (deregister r c (fst (register r c k NewHandler))) r = Some []"
    by (simp add: subscribers_deregister subscribers_register start)
  show ?thesis
    by (intro conjI start lazy kept last cycle) (simp add: subscribers_register)
qed

theorem room_entry_lifecycle_witness:
  "(\<forall>c k. Register ''r2'' c k \<notin> set [Register ''r1'' 1 10, Deregister ''r1'' 1])
   \<and> subscribers (run [Register ''r1'' 1 10, Deregister ''r1'' 1] NewHandler) ''r2'' = None
   \<and> subscribers scenario_hub ''r1'' \<noteq> None
   \<and> subscribers (run [Deregister ''r1'' 1, Deregister ''r1'' 2] scenario_hub) ''r1'' \<noteq> None
   \<and> subscribers (fst (register ''r1'' 1 10 NewHandler)) ''r1'' = Some [(1, 10)]
   \<and> subscribers (deregister ''r1'' 1 (fst (register ''r1'' 1 10 NewHandler))) ''r1'' = Some []"
proof -
  note T = room_entry_lifecycle [where r = "''r2''" and h = scenario_hub
      and ops = "[Register ''r1'' 1 10, Deregister ''r1'' 1]"]
  note U = room_entry_lifecycle [where r = "''r1''" and h = scenario_hub and c = 1 and k = 10
      and ops = "[Deregister ''r1'' 1, Deregister ''r1'' 2]"]
  note V = room_entry_lifecycle [where r = "''r1''" and h = "fst (register ''r1'' 1 10 NewHandler)"
      and c = 1 and k = 10]
  have noreg: "\<forall>c k. Register ''r2'' c k \<notin> set [Register ''r1'' 1 10, Deregister ''r1'' 1]"
    by simp
  have lazy: "subscribers (run [Register ''r1'' 1 10, Deregister ''r1'' 1] NewHandler) ''r2'' = None"
    using T noreg by blast
  have entry: "subscribers scenario_hub ''r1'' \<noteq> None"
    by (simp add: scenario_hub_subscribers)
  have kept: "subscribers (run [Deregister ''r1'' 1, Deregister ''r1'' 2] scenario_hub) ''r1'' \<noteq> None"
    using U entry by blast
  have "subscribers NewHandler ''r1'' = None"
    using U by blast
  then have made: "subscribers (fst (register ''r1'' 1 10 NewHandler)) ''r1'' = Some [(1, 10)]"
    by (simp add: subscribers_register)
  have empty: "subscribers (deregister ''r1'' 1 (fst (register ''r1'' 1 10 NewHandler))) ''r1'' = Some []"
    using V made by blast
  show ?thesis
    by (intro conjI noreg lazy entry kept made empty)
qed

text \<open>
  C4, as amended. \<open>notifyClients\<close> only calls \<open>cancel\<close>; the handle is removed by the
  subscriber's own \<open>handleSubscribe\<close> once it wakes from \<open><-ctx.Done()\<close>. First: when
  the write to a subscriber \<open>c\<close> of the event's room fails, its cancel function is
  called, and as long as no deregistration of \<open>c\<close> from that room runs, \<open>c\<close> is still in
  the room's map after any further operations and every publish for the room still
  writes to it. Second, for a cancellation from any source (the request context ending
  is no operation on the registry): a registered handle stays registered, and publishes
  for its room keep writing to it, until its deregistration runs. Third: from the
  moment \<open>handleSubscribe_done\<close> has run, and as long as the handle is not registered
  again for the room, the handle is absent from the room's map and no publish for the
  room writes to it, whatever operations run in between.
\<close>

theorem cancelled_subscriber_lifecycle:
  "(subscribers h (RoomID msg) = Some entries \<and> (c, k) \<in> set entries \<and> fails c
      \<and> Deregister (RoomID msg) c \<notin> set ops \<longrightarrow>
        Cancel k \<in> set (snd (notifyClients fails h msg))
        \<and> c \<in> set (room_conns (run ops (fst (notifyClients fails h msg))) (RoomID msg))
        \<and> (RoomID msg' = RoomID msg \<longrightarrow>
              WriteJSON c (Message_json msg') (\<not> fails' c)
                \<in> set (snd (notifyClients fails'
                         (run ops (fst (notifyClients fails h msg))) msg'))))
   \<and> (c \<in> set (room_conns h r) \<and> Deregister r c \<notin> set ops \<longrightarrow>
        c \<in> set (room_conns (run ops h) r)
        \<and> (RoomID msg' = r \<longrightarrow>
              WriteJSON c (Message_json msg') (\<not> fails' c)
                \<in> set (snd (notifyClients fails' (run ops h) msg'))))
   \<and> ((\<forall>k. Register r c k \<notin> set ops) \<longrightarrow>
        c \<notin> set (room_conns (run ops (fst (handleSubscribe_done r c h))) r)
        \<and> (RoomID msg' = r \<longrightarrow>
              WriteJSON c j ok
                \<notin> set (snd (notifyClients fails'
                         (run ops (fst (handleSubscribe_done r c h))) msg'))))"
proof -
  have stays: "c \<in> set (room_conns (run ops g) r')
      \<and> (RoomID msg' = r' \<longrightarrow>
            WriteJSON c (Message_json msg') (\<not> fails' c)
              \<in> set (snd (notifyClients fails' (run ops g) msg')))"
    if "c \<in> set (room_conns g r')" "Deregister r' c \<notin> set ops" for g r'
  proof -
    have "c \<in> set (room_conns (run ops g) r')"
      using that(2) that(1) by (rule run_keeps_present)
    then show ?thesis
      by (simp add: WriteJSON_notifyClients)
  qed
  have fired: "Cancel k \<in> set (snd (notifyClients fails h msg))
      \<and> c \<in> set (room_conns (run ops (fst (notifyClients fails h msg))) (RoomID msg))
      \<and> (RoomID msg' = RoomID msg \<longrightarrow>
            WriteJSON c (Message_json msg') (\<not> fails' c)
              \<in> set (snd (notifyClients fails'
                       (run ops (fst (notifyClients fails h msg))) msg')))"
    if subs: "subscribers h (RoomID msg) = Some entries" and entry: "(c, k) \<in> set entries"
      and bad: "fails c" and kept: "Deregister (RoomID msg) c \<notin> set ops"
  proof -
    have cancel: "Cancel k \<in> set (snd (notifyClients fails h msg))"
      using subs entry bad by (auto simp: Cancel_notifyClients)
    have "c \<in> set (room_conns h (RoomID msg))"
      using subs entry by (force simp: room_conns_def)
    then have "c \<in> set (room_conns (fst (notifyClients fails h msg)) (RoomID msg))"
      by (simp add: fst_notifyClients)
    from stays [OF this kept] cancel show ?thesis
      by blast
  qed
  have gone: "c \<notin> set (room_conns (run ops (fst (handleSubscribe_done r c h))) r)
      \<and> (RoomID msg' = r \<longrightarrow>
            WriteJSON c j ok
              \<notin> set (snd (notifyClients fails'
                       (run ops (fst (handleSubscribe_done r c h))) msg')))"
    if fresh: "\<forall>k. Register r c k \<notin> set ops"
  proof -
    have "c \<notin> set (room_conns (fst (handleSubscribe_done r c h)) r)"
      by (simp add: handleSubscribe_done_def room_conns_deregister)
    with fresh have "c \<notin> set (room_conns (run ops (fst (handleSubscribe_done r c h))) r)"
      by (rule run_keeps_absent)
    then show ?thesis
      by (auto simp: WriteJSON_notifyClients)
  qed
  show ?thesis
    using fired stays [of h r] gone by blast
qed

theorem cancelled_subscriber_lifecycle_witness:
  "subscribers scenario_hub (RoomID scenario_msg) = Some [(1, 10), (2, 20)]
   \<and> (1 :: conn, 10 :: CancelFunc) \<in> set [(1, 10), (2, 20)]
   \<and> fails_on [1] 1
   \<and> Deregister (RoomID scenario_msg) 1
        \<notin> set [Publish (fails_on [1]) scenario_msg, Register ''r1'' 4 40, Deregister ''r1'' 2]
   \<and> Cancel 10 \<in> set (snd (notifyClients (fails_on [1]) scenario_hub scenario_msg))
   \<and> 1 \<in> set (room_conns
        (run [Publish (fails_on [1]) scenario_msg, Register ''r1'' 4 40, Deregister ''r1'' 2]
           (fst (notifyClients (fails_on [1]) scenario_hub scenario_msg))) (RoomID scenario_msg))
   \<and> WriteJSON 1 (Message_json scenario_msg) False
        \<in> set (snd (notifyClients (fails_on [1])
             (run [Publish (fails_on [1]) scenario_msg, Register ''r1'' 4 40, Deregister ''r1'' 2]
                (fst (notifyClients (fails_on [1]) scenario_hub scenario_msg))) scenario_msg))
   \<and> (\<forall>k. Register ''r1'' 1 k \<notin> set [Publish (fails_on [2]) scenario_msg, Register ''r1'' 4 40])
   \<and> 1 \<notin> set (room_conns
        (run [Publish (fails_on [2]) scenario_msg, Register ''r1'' 4 40]
           (fst (handleSubscribe_done ''r1'' 1 scenario_hub))) ''r1'')
   \<and> RoomID scenario_msg = ''r1''
   \<and> WriteJSON 1 (Message_json scenario_msg) False
        \<notin> set (snd (notifyClients (fails_on [1])
             (run [Publish (fails_on [2]) scenario_msg, Register ''r1'' 4 40]
                (fst (handleSubscribe_done ''r1'' 1 scenario_hub))) scenario_msg))"
proof -
  note before = cancelled_subscriber_lifecycle [where h = scenario_hub and msg = scenario_msg
      and entries = "[(1, 10), (2, 20)]" and c = 1 and k = 10 and fails = "fails_on [1]"
      and ops = "[Publish (fails_on [1]) scenario_msg, Register ''r1'' 4 40, Deregister ''r1'' 2]"
      and msg' = scenario_msg and fails' = "fails_on [1]"]
  note after = cancelled_subscriber_lifecycle [where r = "''r1''" and c = 1 and h = scenario_hub
      and ops = "[Publish (fails_on [2]) scenario_msg, Register ''r1'' 4 40]"
      and msg' = scenario_msg and j = "Message_json scenario_msg" and ok = False
      and fails' = "fails_on [1]"]
  have room: "RoomID scenario_msg = ''r1''"
    by (simp add: scenario_msg_def)
  have subs: "subscribers scenario_hub (RoomID scenario_msg) = Some [(1, 10), (2, 20)]"
    by (simp add: room scenario_hub_subscribers)
  have entry: "(1 :: conn, 10 :: CancelFunc) \<in> set [(1, 10), (2, 20)]"
    by simp
  have bad: "fails_on [1] 1"
    by (simp add: fails_on_def)
  have kept: "Deregister (RoomID scenario_msg) 1
      \<notin> set [Publish (fails_on [1]) scenario_msg, Register ''r1'' 4 40, Deregister ''r1'' 2]"
    by (simp add: room)
  have fired: "Cancel 10 \<in> set (snd (notifyClients (fails_on [1]) scenario_hub scenario_msg))"
    using before subs entry bad kept by blast
  have still: "1 \<in> set (room_conns
        (run [Publish (fails_on [1]) scenario_msg, Register ''r1'' 4 40, Deregister ''r1'' 2]
           (fst (notifyClients (fails_on [1]) scenario_hub scenario_msg))) (RoomID scenario_msg))"
    using before subs entry bad kept by blast
  have "WriteJSON 1 (Message_json scenario_msg) (\<not> fails_on [1] 1)
        \<in> set (snd (notifyClients (fails_on [1])
             (run [Publish (fails_on [1]) scenario_msg, Register ''r1'' 4 40, Deregister ''r1'' 2]
                (fst (notifyClients (fails_on [1]) scenario_hub scenario_msg))) scenario_msg))"
    using before subs entry bad kept by blast
  then have served: "WriteJSON 1 (Message_json scenario_msg) False
        \<in> set (snd (notifyClients (fails_on [1])
             (run [Publish (fails_on [1]) scenario_msg, Register ''r1'' 4 40, Deregister ''r1'' 2]
                (fst (notifyClients (fails_on [1]) scenario_hub scenario_msg))) scenario_msg))"
    using bad by simp
  have noreg: "\<forall>k. Register ''r1'' 1 k \<notin> set [Publish (fails_on [2]) scenario_msg, Register ''r1'' 4 40]"
    by simp
  have absent: "1 \<notin> set (room_conns
        (run [Publish (fails_on [2]) scenario_msg, Register ''r1'' 4 40]
           (fst (handleSubscribe_done ''r1'' 1 scenario_hub))) ''r1'')"
    using after noreg by blast
  have unserved: "WriteJSON 1 (Message_json scenario_msg) False
        \<notin> set (snd (notifyClients (fails_on [1])
             (run [Publish (fails_on [2]) scenario_msg, Register ''r1'' 4 40]
                (fst (handleSubscribe_done ''r1'' 1 scenario_hub))) scenario_msg))"
    using after noreg room by blast
  show ?thesis
    by (intro conjI subs entry bad kept fired still served noreg absent room unserved)
qed

text \<open>
  C4 as stated fails between the cancellation and the removal. In the concrete hub the
  write to connection 1 fails, so its cancel function 10 is called; the registry
  returned still holds connection 1 under \<open>r1\<close>, and the next publish for \<open>r1\<close>
  attempts delivery to it again: it calls \<open>WriteJSON\<close> on connection 1, which fails
  again, as a connection keeps its write error.
\<close>

theorem cancelled_subscriber_still_registered_counterexample:
  "Cancel 10 \<in> set (snd (notifyClients (fails_on [1]) scenario_hub scenario_msg))
   \<and> 1 \<in> set (room_conns (fst (notifyClients (fails_on [1]) scenario_hub scenario_msg)) ''r1'')
   \<and> WriteJSON 1 (Message_json scenario_msg) False
        \<in> set (snd (notifyClients (fails_on [1])
                       (fst (notifyClients (fails_on [1]) scenario_hub scenario_msg))
                       scenario_msg))"
proof -
  have room: "RoomID scenario_msg = ''r1''"
    by (simp add: scenario_msg_def)
  have fired: "Cancel 10 \<in> set (snd (notifyClients (fails_on [1]) scenario_hub scenario_msg))"
    by (simp add: snd_notifyClients room scenario_hub_subscribers fails_on_def)
  show ?thesis
    by (intro conjI fired)
       (simp_all add: fst_notifyClients WriteJSON_notifyClients room scenario_hub_conns fails_on_def)
qed



text \<open>
  C7. A subscribe request whose room identifier does not parse, names no room, or meets
  a store error has no effect on the hub. \<open>handleSubscribe\<close> returns what \<open>readRoom\<close>
  wrote and logged, with the registry unchanged, no call of \<open>Upgrade\<close>, no
  "new client connected" record and nobody left waiting; the result does not depend on
  what an upgrade would have returned.
\<close>

theorem handleSubscribe_rejects_unknown_room:
  "Parse u (room_id r) = Inl e
   \<or> (Parse u (room_id r) = Inr roomID \<and> GetRoom q roomID = Inl ErrNoRows)
   \<or> (Parse u (room_id r) = Inr roomID \<and> GetRoom q roomID = Inl (OtherError e')) \<longrightarrow>
     handleSubscribe u q up cancel h w r =
       (h, fst (readRoom u q w r), fst (snd (readRoom u q w r)), None)
     \<and> fst (handleSubscribe u q up cancel h w r) = h
     \<and> Upgrade \<notin> set (fst (snd (snd (handleSubscribe u q up cancel h w r))))
     \<and> (\<forall>a. Slog Info a \<notin> set (fst (snd (snd (handleSubscribe u q up cancel h w r)))))
     \<and> handleSubscribe u q up' cancel' h w r = handleSubscribe u q up cancel h w r"
proof
  assume "Parse u (room_id r) = Inl e
   \<or> (Parse u (room_id r) = Inr roomID \<and> GetRoom q roomID = Inl ErrNoRows)
   \<or> (Parse u (room_id r) = Inr roomID \<and> GetRoom q roomID = Inl (OtherError e'))"
  then have bad: "snd (snd (readRoom u q w r)) = None"
    by (auto simp: readRoom_None_iff)
  obtain w1 e1 where rr: "readRoom u q w r = (w1, e1, None)"
    using bad by (cases "readRoom u q w r") auto
  have run: "handleSubscribe u q up cancel h w r = (h, w1, e1, None)" for up cancel
    by (simp add: handleSubscribe_def rr)
  have noup: "Upgrade \<notin> set e1"
    using readRoom_effects(1) [of u q w r] by (simp add: rr)
  have noinfo: "Slog Info a \<notin> set e1" for a
    using rr by (auto simp: readRoom_def Let_def split: sum.splits store_error.splits)
  show "handleSubscribe u q up cancel h w r =
       (h, fst (readRoom u q w r), fst (snd (readRoom u q w r)), None)
     \<and> fst (handleSubscribe u q up cancel h w r) = h
     \<and> Upgrade \<notin> set (fst (snd (snd (handleSubscribe u q up cancel h w r))))
     \<and> (\<forall>a. Slog Info a \<notin> set (fst (snd (snd (handleSubscribe u q up cancel h w r)))))
     \<and> handleSubscribe u q up' cancel' h w r = handleSubscribe u q up cancel h w r"
    using noup noinfo by (simp add: run rr)
qed

theorem handleSubscribe_rejects_unknown_room_witness:
  "Parse scenario_uuid (room_id bad_request) = Inl ''invalid UUID length''
   \<and> fst (handleSubscribe scenario_uuid scenario_store (Inr 4) 40 scenario_hub fresh_writer bad_request)
       = scenario_hub
   \<and> handleSubscribe scenario_uuid scenario_store (Inr 4) 40 scenario_hub fresh_writer bad_request =
       (scenario_hub,
        \<lparr>header = [''Content-Type'' \<mapsto> ''text/plain; charset=utf-8'',
                   ''X-Content-Type-Options'' \<mapsto> ''nosniff''],
         status = Some 400, body = ''invalid room id'' @ [CHR 0x0A]\<rparr>,
        [], None)"
proof -
  have parse: "Parse scenario_uuid (room_id bad_request) = Inl ''invalid UUID length''"
    by (simp add: scenario_uuid_def bad_request_def)
  note T = handleSubscribe_rejects_unknown_room [where u = scenario_uuid and r = bad_request
      and e = "''invalid UUID length''" and q = scenario_store and up = "Inr 4" and cancel = 40
      and h = scenario_hub and w = fresh_writer]
  have run: "handleSubscribe scenario_uuid scenario_store (Inr 4) 40 scenario_hub fresh_writer bad_request =
       (scenario_hub, fst (readRoom scenario_uuid scenario_store fresh_writer bad_request),
        fst (snd (readRoom scenario_uuid scenario_store fresh_writer bad_request)), None)"
    using T parse by blast
  have same: "fst (handleSubscribe scenario_uuid scenario_store (Inr 4) 40 scenario_hub fresh_writer bad_request)
       = scenario_hub"
    using T parse by blast
  have rr: "readRoom scenario_uuid scenario_store fresh_writer bad_request =
      (\<lparr>header = [''Content-Type'' \<mapsto> ''text/plain; charset=utf-8'',
                   ''X-Content-Type-Options'' \<mapsto> ''nosniff''],
         status = Some 400, body = ''invalid room id'' @ [CHR 0x0A]\<rparr>, [], None)"
    by (simp add: readRoom_def parse [simplified bad_request_def, simplified] bad_request_def
        http_Error_def Write_def WriteHeader_def Header_Set_def fresh_writer_def)
  show ?thesis
    using parse same run unfolding rr by simp
qed

text \<open>
  C9. The list endpoints answer a result without rows with the serialization of the
  empty list. When \<open>GetRooms\<close> (or, after a successful \<open>readRoom\<close>,
  \<open>GetRoomMessages\<close>) returns the nil slice or an empty one, the handler passes the
  non-nil empty slice to \<open>sendJSON\<close>: the body is what \<open>json.Marshal\<close> gives for it, as
  JSON. The nil slice never reaches \<open>json.Marshal\<close>: two marshallers that differ only on
  the nil slice give the same response, whatever the store returns.
\<close>

theorem list_handlers_send_empty_array:
  "(GetRooms q = Inr NilSlice \<or> GetRooms q = Inr (Slice []) \<longrightarrow>
      handleGetRooms q Marshal w = (sendJSON Marshal w (Slice []), [])
      \<and> body (fst (handleGetRooms q Marshal w)) =
          body w @ (case Marshal (Slice []) of Inl _ \<Rightarrow> [] | Inr bytes \<Rightarrow> bytes)
      \<and> header (fst (handleGetRooms q Marshal w)) ''Content-Type'' = Some ''application/json'')
   \<and> (Parse u (room_id r) = Inr roomID \<and> GetRoom q roomID = Inr room
        \<and> (GetRoomMessages q roomID = Inr NilSlice \<or> GetRoomMessages q roomID = Inr (Slice [])) \<longrightarrow>
      handleGetRoomMessages u q Marshal' w r = (sendJSON Marshal' w (Slice []), [])
      \<and> body (fst (handleGetRoomMessages u q Marshal' w r)) =
          body w @ (case Marshal' (Slice []) of Inl _ \<Rightarrow> [] | Inr bytes \<Rightarrow> bytes)
      \<and> header (fst (handleGetRoomMessages u q Marshal' w r)) ''Content-Type''
          = Some ''application/json'')
   \<and> ((\<forall>s. s \<noteq> NilSlice \<longrightarrow> Other s = Marshal s) \<longrightarrow>
        handleGetRooms q Other w = handleGetRooms q Marshal w)
   \<and> ((\<forall>s. s \<noteq> NilSlice \<longrightarrow> Other' s = Marshal' s) \<longrightarrow>
        handleGetRoomMessages u q Other' w r = handleGetRoomMessages u q Marshal' w r)"
proof (intro conjI impI)
  assume "GetRooms q = Inr NilSlice \<or> GetRooms q = Inr (Slice [])"
  then show "handleGetRooms q Marshal w = (sendJSON Marshal w (Slice []), [])"
    by (auto simp: handleGetRooms_def)
  then show "body (fst (handleGetRooms q Marshal w)) =
          body w @ (case Marshal (Slice []) of Inl _ \<Rightarrow> [] | Inr bytes \<Rightarrow> bytes)"
    and "header (fst (handleGetRooms q Marshal w)) ''Content-Type'' = Some ''application/json''"
    by (simp_all add: sendJSON_def Let_def body_Write header_Write Header_Set_def)
next
  assume "Parse u (room_id r) = Inr roomID \<and> GetRoom q roomID = Inr room
        \<and> (GetRoomMessages q roomID = Inr NilSlice \<or> GetRoomMessages q roomID = Inr (Slice []))"
  then show "handleGetRoomMessages u q Marshal' w r = (sendJSON Marshal' w (Slice []), [])"
    by (auto simp: handleGetRoomMessages_def readRoom_def Let_def)
  then show "body (fst (handleGetRoomMessages u q Marshal' w r)) =
          body w @ (case Marshal' (Slice []) of Inl _ \<Rightarrow> [] | Inr bytes \<Rightarrow> bytes)"
    and "header (fst (handleGetRoomMessages u q Marshal' w r)) ''Content-Type''
          = Some ''application/json''"
    by (simp_all add: sendJSON_def Let_def body_Write header_Write Header_Set_def)
next
  assume "\<forall>s. s \<noteq> NilSlice \<longrightarrow> Other s = Marshal s"
  then show "handleGetRooms q Other w = handleGetRooms q Marshal w"
    by (auto simp: handleGetRooms_def sendJSON_def split: sum.splits slice.splits)
next
  assume same: "\<forall>s. s \<noteq> NilSlice \<longrightarrow> Other' s = Marshal' s"
  then have "sendJSON Other' w1 (case messages of NilSlice \<Rightarrow> Slice [] | Slice _ \<Rightarrow> messages) =
      sendJSON Marshal' w1 (case messages of NilSlice \<Rightarrow> Slice [] | Slice _ \<Rightarrow> messages)"
    for w1 messages
    by (cases messages) (simp_all add: sendJSON_def)
  then show "handleGetRoomMessages u q Other' w r = handleGetRoomMessages u q Marshal' w r"
    by (simp add: handleGetRoomMessages_def split: prod.splits option.splits sum.splits)
qed

theorem list_handlers_send_empty_array_witness:
  "GetRooms scenario_store = Inr NilSlice
   \<and> scenario_Marshal NilSlice = Inr ''null''
   \<and> handleGetRooms scenario_store scenario_Marshal fresh_writer =
       (\<lparr>header = [''Content-Type'' \<mapsto> ''application/json''], status = Some 200, body = ''[]''\<rparr>, [])
   \<and> Parse scenario_uuid (room_id scenario_request) = Inr 1
   \<and> GetRoom scenario_store 1 = Inr ''a room''
   \<and> GetRoomMessages scenario_store 1 = Inr NilSlice
   \<and> handleGetRoomMessages scenario_uuid scenario_store scenario_Marshal fresh_writer scenario_request =
       (\<lparr>header = [''Content-Type'' \<mapsto> ''application/json''], status = Some 200, body = ''[]''\<rparr>, [])"
proof -
  note T = list_handlers_send_empty_array [where q = scenario_store and Marshal = scenario_Marshal
      and Marshal' = scenario_Marshal and w = fresh_writer and u = scenario_uuid
      and r = scenario_request and roomID = 1 and room = "''a room''"]
  have rooms: "GetRooms scenario_store = Inr NilSlice"
    by (simp add: scenario_store_def)
  have null: "scenario_Marshal NilSlice = Inr ''null''"
    by (simp add: scenario_Marshal_def)
  have parse: "Parse scenario_uuid (room_id scenario_request) = Inr 1"
    by (simp add: scenario_uuid_def scenario_request_def)
  have room: "GetRoom scenario_store 1 = Inr ''a room''"
    by (simp add: scenario_store_def)
  have messages: "GetRoomMessages scenario_store 1 = Inr NilSlice"
    by (simp add: scenario_store_def)
  have sent: "sendJSON scenario_Marshal fresh_writer (Slice []) =
      \<lparr>header = [''Content-Type'' \<mapsto> ''application/json''], status = Some 200, body = ''[]''\<rparr>"
    by (simp add: sendJSON_def scenario_Marshal_def fresh_writer_def Write_def WriteHeader_def
        Header_Set_def)
  have list1: "handleGetRooms scenario_store scenario_Marshal fresh_writer =
      (sendJSON scenario_Marshal fresh_writer (Slice []), [])"
    using T rooms by blast
  have list2: "handleGetRoomMessages scenario_uuid scenario_store scenario_Marshal fresh_writer
      scenario_request = (sendJSON scenario_Marshal fresh_writer (Slice []), [])"
    using T parse room messages by blast
  show ?thesis
    using rooms null parse room messages list1 list2 unfolding sent by (intro conjI)
qed

text \<open>
  C10. \<open>sendJSON\<close> drops the error of \<open>json.Marshal\<close>. Whatever \<open>Marshal\<close> returns, the
  \<open>Content-Type\<close> header is set to \<open>application/json\<close>, the bytes returned (none on
  an error) are appended to the body, and the status is 200 unless one was written
  before. A failing \<open>Marshal\<close> gives the very response of one that returns no bytes and
  no error; \<open>sendJSON\<close> returns nothing to its caller.
\<close>

theorem sendJSON_discards_marshal_error:
  "header (sendJSON Marshal w rawData) ''Content-Type'' = Some ''application/json''
   \<and> body (sendJSON Marshal w rawData) =
        body w @ (case Marshal rawData of Inl e \<Rightarrow> [] | Inr bytes \<Rightarrow> bytes)
   \<and> status (sendJSON Marshal w rawData) = Some (case status w of None \<Rightarrow> 200 | Some s \<Rightarrow> s)
   \<and> sendJSON (\<lambda>v. Inl e) w rawData = sendJSON (\<lambda>v. Inr []) w rawData
   \<and> body (sendJSON (\<lambda>v. Inl e) w rawData) = body w
   \<and> status (sendJSON (\<lambda>v. Inl e) (w\<lparr>status := None\<rparr>) rawData) = Some 200"
  by (simp add: sendJSON_def Let_def status_Write body_Write header_Write Header_Set_def)

theorem sendJSON_discards_marshal_error_witness:
  "sendJSON (\<lambda>v. Inl ''json: unsupported type'') fresh_writer (0::nat) =
     \<lparr>header = [''Content-Type'' \<mapsto> ''application/json''], status = Some 200, body = []\<rparr>"
  using sendJSON_discards_marshal_error [of "\<lambda>v. Inl ''json: unsupported type''" fresh_writer "0::nat" "''json: unsupported type''"]
  by (simp add: sendJSON_def fresh_writer_def Write_def WriteHeader_def Header_Set_def)

end
